theory Spec2Isabelle
  imports Main "HOL-Library.Sublist"
begin

section \<open>Python values and strings\<close>

text \<open>
  The rows handled by \<^verbatim>\<open>TheZooGUI\<close> are Python tuples as a database cursor
  returns them. A field is \<^verbatim>\<open>None\<close>, an integer or a string; a tuple is a list of
  fields. A string is a list of characters, each a code point below 256 (the Latin-1
  range); case mapping and white space are those Python gives these code points.
\<close>

datatype pyval = PNone | PInt int | PStr string

type_synonym pytuple = "pyval list"

datatype py_error =
    IndexError
  | ValueError
  | TclError string

text \<open>\<^verbatim>\<open>str(n)\<close> for an integer: decimal digits, most significant first.\<close>

definition digit_char :: "nat \<Rightarrow> char" where
  "digit_char d = ''0123456789'' ! (d mod 10)"

definition digit_val :: "char \<Rightarrow> nat option" where
  "digit_val c = map_of (zip ''0123456789'' [0, 1, 2, 3, 4, 5, 6, 7, 8, 9]) c"

fun str_nat :: "nat \<Rightarrow> string" where
  "str_nat n = (if n < 10 then [digit_char n] else str_nat (n div 10) @ [digit_char (n mod 10)])"

declare str_nat.simps [simp del]

definition str_int :: "int \<Rightarrow> string" where
  "str_int i = (if i < 0 then CHR ''-'' # str_nat (nat (- i)) else str_nat (nat i))"

text \<open>\<^verbatim>\<open>str(value)\<close>.\<close>

fun py_str :: "pyval \<Rightarrow> string" where
  "py_str PNone = ''None''"
| "py_str (PInt i) = str_int i"
| "py_str (PStr s) = s"

text \<open>Truth value of a field, as \<^verbatim>\<open>value or 'N/A'\<close> tests it.\<close>

fun py_bool :: "pyval \<Rightarrow> bool" where
  "py_bool PNone = False"
| "py_bool (PInt i) = (i \<noteq> 0)"
| "py_bool (PStr s) = (s \<noteq> [])"

text \<open>
  \<^verbatim>\<open>s.lower()\<close>: the letters \<^verbatim>\<open>A\<close> to \<^verbatim>\<open>Z\<close> and the capital letters from
  \<^verbatim>\<open>U+00C0\<close> to \<^verbatim>\<open>U+00DE\<close> (the multiplication sign \<^verbatim>\<open>U+00D7\<close> is none) move to
  the small letter 32 places on.
\<close>

definition lower_char :: "char \<Rightarrow> char" where
  "lower_char c =
     (let n = (of_char c :: nat) in
      if (65 \<le> n \<and> n \<le> 90) \<or> (192 \<le> n \<and> n \<le> 222 \<and> n \<noteq> 215)
      then char_of (n + 32) else c)"

definition py_lower :: "string \<Rightarrow> string" where
  "py_lower s = map lower_char s"

text \<open>
  \<^verbatim>\<open>s.strip()\<close>: white space is removed at both ends. White space is what
  \<^verbatim>\<open>str.isspace\<close> accepts: the controls 9 to 13 and 28 to 31, the space, \<^verbatim>\<open>U+0085\<close> and the
  no-break space \<^verbatim>\<open>U+00A0\<close>.
\<close>

definition is_space :: "char \<Rightarrow> bool" where
  "is_space c =
     (let n = (of_char c :: nat) in
      (9 \<le> n \<and> n \<le> 13) \<or> (28 \<le> n \<and> n \<le> 32) \<or> n = 133 \<or> n = 160)"

definition trim :: "(char \<Rightarrow> bool) \<Rightarrow> string \<Rightarrow> string" where
  "trim sp s = rev (dropWhile sp (rev (dropWhile sp s)))"

definition py_strip :: "string \<Rightarrow> string" where
  "py_strip s = trim is_space s"

text \<open>\<^verbatim>\<open>t in s\<close> on strings: \<open>t\<close> occurs in \<open>s\<close> as a contiguous piece.\<close>

fun starts_with :: "string \<Rightarrow> string \<Rightarrow> bool" where
  "starts_with s [] = True"
| "starts_with [] (c # t) = False"
| "starts_with (d # s) (c # t) = (d = c \<and> starts_with s t)"

fun py_in :: "string \<Rightarrow> string \<Rightarrow> bool" where
  "py_in t [] = (t = [])"
| "py_in t (c # s) = (starts_with (c # s) t \<or> py_in t s)"

text \<open>
  \<^verbatim>\<open>int(s)\<close> on a string: white space around the number is dropped, one sign is allowed,
  then decimal digits, where a single underscore may stand between two digits. Anything
  else is a \<^verbatim>\<open>ValueError\<close>, here \<open>None\<close>. The white space \<^verbatim>\<open>int\<close> drops is not that of
  \<^verbatim>\<open>strip\<close>: the controls 28 to 31 are no white space for it.
\<close>

definition is_int_space :: "char \<Rightarrow> bool" where
  "is_int_space c =
     (let n = (of_char c :: nat) in (9 \<le> n \<and> n \<le> 13) \<or> n = 32 \<or> n = 133 \<or> n = 160)"

fun digits_acc :: "nat \<Rightarrow> string \<Rightarrow> nat option" where
  "digits_acc a [] = Some a"
| "digits_acc a [c] = (case digit_val c of None \<Rightarrow> None | Some v \<Rightarrow> Some (a * 10 + v))"
| "digits_acc a (c # d # s) =
     (if c = CHR ''_'' then
        (case digit_val d of None \<Rightarrow> None | Some v \<Rightarrow> digits_acc (a * 10 + v) s)
      else
        (case digit_val c of None \<Rightarrow> None | Some v \<Rightarrow> digits_acc (a * 10 + v) (d # s)))"

fun parse_nat :: "string \<Rightarrow> nat option" where
  "parse_nat [] = None"
| "parse_nat (c # s) = (case digit_val c of None \<Rightarrow> None | Some v \<Rightarrow> digits_acc v s)"

definition py_int :: "string \<Rightarrow> int option" where
  "py_int s =
     (case trim is_int_space s of
        [] \<Rightarrow> None
      | c # r \<Rightarrow>
          if c = CHR ''-'' then map_option (\<lambda>n. - int n) (parse_nat r)
          else if c = CHR ''+'' then map_option int (parse_nat r)
          else map_option int (parse_nat (c # r)))"

text \<open>\<^verbatim>\<open>"\n".join(lines)\<close>.\<close>

fun join_lines :: "string list \<Rightarrow> string" where
  "join_lines [] = []"
| "join_lines [l] = l"
| "join_lines (l # m # ls) = l @ [CHR 0x0A] @ join_lines (m # ls)"

section \<open>The window\<close>

text \<open>
  The state of a \<^verbatim>\<open>TheZooGUI\<close> object: the row cache \<^verbatim>\<open>malware_rows\<close>, the text variable
  of the filter entry, the children of the tree view's root in display order (each an item
  id and the cell strings Tk stores for it), the selected item ids in display order, the
  state of the details button and the text of the status label. Two logs record what the
  object did to its surroundings: the message boxes it opened and the calls it made on the
  database handler.
\<close>

datatype widget_state = NORMAL | DISABLED

datatype notification = ShowError string string | ShowInfo string string

datatype db_call = GetPartialDetails | GetMalInfo int

record gui =
  malware_rows :: "pytuple list"
  search_var :: string
  tree_items :: "(string \<times> string list) list"
  tree_selection :: "string list"
  details_button :: widget_state
  status_var :: string
  notifications :: "notification list"
  db_calls :: "db_call list"

text \<open>
  The database handler \<^verbatim>\<open>imports.db_handler.DBHandler\<close> is a collaborator whose code is
  not part of this file. It is taken as a parameter: each of its two queries either
  raises an \<^verbatim>\<open>Exception\<close>, given by its message \<^verbatim>\<open>str(exc)\<close>, or returns a list of
  tuples.
\<close>

record db_handler =
  get_partial_details :: "string + pytuple list"
  get_mal_info :: "int \<Rightarrow> string + pytuple list"

text \<open>
  \<^verbatim>\<open>self.tree.insert("", tk.END, iid=..., values=row)\<close>: Tk refuses an item id that is
  already in the tree (the root item has the empty id), otherwise the item is appended
  with the string form of each value.
\<close>

definition tree_insert :: "string \<Rightarrow> pytuple \<Rightarrow> gui \<Rightarrow> py_error + gui" where
  "tree_insert iid row s =
     (if iid = [] \<or> iid \<in> set (map fst (tree_items s))
      then Inl (TclError (''Item '' @ iid @ '' already exists''))
      else Inr (s\<lparr>tree_items := tree_items s @ [(iid, map py_str row)]\<rparr>))"

text \<open>The loop of \<^verbatim>\<open>_refresh_tree\<close>; \<^verbatim>\<open>row[0]\<close> of an empty tuple raises.\<close>

fun insert_rows :: "pytuple list \<Rightarrow> gui \<Rightarrow> py_error option \<times> gui" where
  "insert_rows [] s = (None, s)"
| "insert_rows (row # rows) s =
     (case row of
        [] \<Rightarrow> (Some IndexError, s)
      | v # _ \<Rightarrow>
          (case tree_insert (py_str v) row s of
             Inl e \<Rightarrow> (Some e, s)
           | Inr s' \<Rightarrow> insert_rows rows s'))"

text \<open>
  \<^verbatim>\<open>_refresh_tree\<close>. Deleting every child also empties the selection. An exception
  leaves the method at once, with the state as it is then.
\<close>

definition refresh_tree :: "pytuple list \<Rightarrow> gui \<Rightarrow> py_error option \<times> gui" where
  "refresh_tree rows s =
     (case insert_rows rows (s\<lparr>tree_items := [], tree_selection := []\<rparr>) of
        (Some e, s') \<Rightarrow> (Some e, s')
      | (None, s') \<Rightarrow>
          (None, s'\<lparr>status_var := ''Loaded '' @ str_nat (length rows) @ '' entries'',
                     details_button := DISABLED\<rparr>))"

text \<open>\<^verbatim>\<open>_load_data\<close>.\<close>

definition load_data :: "db_handler \<Rightarrow> gui \<Rightarrow> py_error option \<times> gui" where
  "load_data db s =
     (let s0 = s\<lparr>db_calls := db_calls s @ [GetPartialDetails]\<rparr> in
      case get_partial_details db of
        Inr rows \<Rightarrow>
          (let s1 = s0\<lparr>malware_rows := rows\<rparr> in refresh_tree (malware_rows s1) s1)
      | Inl msg \<Rightarrow>
          (let s1 = s0\<lparr>notifications := notifications s0 @ [ShowError ''Database Error'' msg],
                        malware_rows := []\<rparr>
           in refresh_tree (malware_rows s1) s1))"

text \<open>\<^verbatim>\<open>_filter_rows\<close>.\<close>

definition row_matches :: "string \<Rightarrow> pytuple \<Rightarrow> bool" where
  "row_matches text row = list_ex (\<lambda>v. py_in text (py_lower (py_str v))) row"

definition filter_rows :: "gui \<Rightarrow> py_error option \<times> gui" where
  "filter_rows s =
     (let text = py_lower (py_strip (search_var s)) in
      if text = [] then refresh_tree (malware_rows s) s
      else refresh_tree (filter (row_matches text) (malware_rows s)) s)"

text \<open>\<^verbatim>\<open>_on_select\<close>.\<close>

definition on_select :: "gui \<Rightarrow> gui" where
  "on_select s =
     s\<lparr>details_button := (if tree_selection s \<noteq> [] then NORMAL else DISABLED)\<rparr>"

text \<open>\<^verbatim>\<open>_show_selected_details\<close>.\<close>

definition or_na :: "pyval \<Rightarrow> string" where
  "or_na v = (if py_bool v then py_str v else ''N/A'')"

fun info_lines :: "pytuple \<Rightarrow> string list option" where
  "info_lines [mal_type, name, version, author, language, date, architecture, platform, tags] =
     Some [''Name: '' @ or_na name,
           ''Type: '' @ or_na mal_type,
           ''Version: '' @ or_na version,
           ''Author: '' @ or_na author,
           ''Language: '' @ or_na language,
           ''Date: '' @ or_na date,
           ''Architecture: '' @ or_na architecture,
           ''Platform: '' @ or_na platform,
           ''Tags: '' @ or_na tags]"
| "info_lines _ = None"

definition notify :: "notification \<Rightarrow> gui \<Rightarrow> gui" where
  "notify n s = s\<lparr>notifications := notifications s @ [n]\<rparr>"

definition show_selected_details :: "db_handler \<Rightarrow> gui \<Rightarrow> py_error option \<times> gui" where
  "show_selected_details db s =
     (case tree_selection s of
        [] \<Rightarrow> (None, s)
      | sel # _ \<Rightarrow>
          (case py_int sel of
             None \<Rightarrow> (Some ValueError, s)
           | Some mal_id \<Rightarrow>
               (let s1 = s\<lparr>db_calls := db_calls s @ [GetMalInfo mal_id]\<rparr> in
                case get_mal_info db mal_id of
                  Inl msg \<Rightarrow> (None, notify (ShowError ''Database Error'' msg) s1)
                | Inr result \<Rightarrow>
                    (case result of
                       [] \<Rightarrow>
                         (None, notify (ShowInfo ''Malware Info''
                                          ''No additional metadata available.'') s1)
                     | d # _ \<Rightarrow>
                         (case info_lines d of
                            None \<Rightarrow> (Some ValueError, s1)
                          | Some ls \<Rightarrow>
                              (None, notify (ShowInfo ''Malware Info'' (join_lines ls)) s1))))))"

text \<open>
  \<^verbatim>\<open>__init__\<close>: the widgets as \<^verbatim>\<open>_build_layout\<close> creates them, then \<^verbatim>\<open>_load_data\<close>. An
  exception that leaves \<^verbatim>\<open>_load_data\<close> leaves the constructor, and no window exists.
\<close>

definition build_layout :: gui where
  "build_layout =
     \<lparr>malware_rows = [], search_var = [], tree_items = [], tree_selection = [],
      details_button = DISABLED, status_var = ''Loaded 0 entries'',
      notifications = [], db_calls = []\<rparr>"

definition init_gui :: "db_handler \<Rightarrow> py_error + gui" where
  "init_gui db = (case load_data db build_layout of (Some e, s) \<Rightarrow> Inl e | (None, s) \<Rightarrow> Inr s)"

text \<open>
  The events of the window. The text of the filter entry changes when a key is pressed in
  it or text is pasted into it: Tk writes the new text to \<^verbatim>\<open>search_var\<close> and calls no method
  of the class. A key release in the entry runs \<^verbatim>\<open>_filter_rows\<close>, which reads
  \<^verbatim>\<open>search_var\<close> as it is then. A selection event finds the clicked items, as far as they
  are in the tree, selected; the button runs \<^verbatim>\<open>_show_selected_details\<close>. An exception in
  a handler is reported by Tk and the event loop goes on with the state as it is.
\<close>

datatype event = EditText string | KeyRelease | TreeviewSelect "string list" | ShowDetails

fun handle :: "db_handler \<Rightarrow> event \<Rightarrow> gui \<Rightarrow> gui" where
  "handle db (EditText t) s = s\<lparr>search_var := t\<rparr>"
| "handle db KeyRelease s = snd (filter_rows s)"
| "handle db (TreeviewSelect sel) s =
     on_select (s\<lparr>tree_selection := filter (\<lambda>i. i \<in> set sel) (map fst (tree_items s))\<rparr>)"
| "handle db ShowDetails s = snd (show_selected_details db s)"

inductive reachable :: "db_handler \<Rightarrow> gui \<Rightarrow> bool" for db where
  reachable_init: "init_gui db = Inr s \<Longrightarrow> reachable db s"
| reachable_step: "reachable db s \<Longrightarrow> reachable db (handle db ev s)"

section \<open>Notions used to state the properties\<close>

text \<open>
  The item that \<^verbatim>\<open>_refresh_tree\<close> makes of a row: its id is the string form of the first
  field. A list of rows can be shown when these ids are pairwise distinct and none is
  empty, so no row is the empty tuple. The primary key of the table behind
  \<^verbatim>\<open>get_partial_details\<close> gives every row an integer id of its own.
\<close>

definition row_id :: "pytuple \<Rightarrow> string" where
  "row_id row = (case row of [] \<Rightarrow> [] | v # _ \<Rightarrow> py_str v)"

definition tree_item :: "pytuple \<Rightarrow> string \<times> string list" where
  "tree_item row = (row_id row, map py_str row)"

definition renderable :: "pytuple list \<Rightarrow> bool" where
  "renderable rows \<longleftrightarrow> distinct (map row_id rows) \<and> [] \<notin> set (map row_id rows)"

text \<open>
  A row contains a text when the text is a contiguous part of the lower-case string form
  of one of its fields.
\<close>

definition contains_text :: "string \<Rightarrow> pytuple \<Rightarrow> bool" where
  "contains_text t row \<longleftrightarrow> (\<exists>v \<in> set row. sublist t (py_lower (py_str v)))"

text \<open>
  The rows of a cache that a filter text selects: all of them when the text is empty or
  white space only, otherwise those that contain the trimmed text without regard to case.
\<close>

definition visible_rows :: "string \<Rightarrow> pytuple list \<Rightarrow> pytuple list" where
  "visible_rows T C =
     (if py_strip T = [] then C else filter (contains_text (py_lower (py_strip T))) C)"


text \<open>The rows and the details of the scenarios used as concrete inputs.\<close>

definition example_rows :: "pytuple list" where
  "example_rows =
     [[PInt 1, PStr ''Trojan'', PStr ''C'', PStr ''x86'', PStr ''Win'', PStr ''A''],
      [PInt 2, PStr ''Worm'', PStr ''Python'', PStr ''x64'', PStr ''Linux'', PStr ''B'']]"

definition latin_rows :: "pytuple list" where
  "latin_rows =
     [[PInt 1, PStr ''Trojan'', PStr ''C'', PStr ''x86'', PStr ''Win'', PStr ''A''],
      [PInt 2, PStr ''Worm'', PStr ''Python'', PStr ''x64'', PStr ''Linux'', PStr ''B''],
      [PInt 3, PStr ''Virus'', PNone, PStr ''x86'', PStr ''DOS'', PStr (''CAF'' @ [CHR 0xC9])]]"

definition latin_db :: db_handler where
  "latin_db = \<lparr>get_partial_details = Inr latin_rows, get_mal_info = (\<lambda>i. Inr [])\<rparr>"

definition example_detail :: pytuple where
  "example_detail =
     [PStr ''Worm'', PStr ''B'', PStr ''1.0'', PNone, PStr ''Python'', PStr ''2010'',
      PStr ''x64'', PStr ''Linux'', PStr []]"

definition example_db :: db_handler where
  "example_db =
     \<lparr>get_partial_details = Inr example_rows,
      get_mal_info = (\<lambda>i. if i = 1 then Inr [] else if i = 2 then Inr [example_detail]
                           else Inl ''no such malware'')\<rparr>"

definition failing_db :: db_handler where
  "failing_db =
     \<lparr>get_partial_details = Inl ''unable to open database file'',
      get_mal_info = (\<lambda>i. Inl ''unable to open database file'')\<rparr>"

section \<open>Strings: containment and the decimal round trip\<close>

lemma starts_with_prefix: "starts_with s t \<longleftrightarrow> prefix t s"
  by (induction s t rule: starts_with.induct) auto

lemma py_in_sublist: "py_in t s \<longleftrightarrow> sublist t s"
  by (induction s) (auto simp: starts_with_prefix sublist_Cons_right)

lemma digit_cases:
  assumes "d < (10::nat)"
  shows "d = 0 \<or> d = 1 \<or> d = 2 \<or> d = 3 \<or> d = 4 \<or> d = 5 \<or> d = 6 \<or> d = 7 \<or> d = 8 \<or> d = 9"
  using assms by arith

lemma digit_val_digit_char: "d < 10 \<Longrightarrow> digit_val (digit_char d) = Some d"
  using digit_cases[of d] by (auto simp: digit_val_def digit_char_def)

lemma digit_char_not_space: "\<not> is_space (digit_char d)" "\<not> is_int_space (digit_char d)"
  using digit_cases[of "d mod 10"] by (auto simp: digit_char_def is_space_def is_int_space_def)

lemma digit_char_not_sign: "digit_char d \<noteq> CHR ''-''" "digit_char d \<noteq> CHR ''+''"
  using digit_cases[of "d mod 10"] by (auto simp: digit_char_def)

lemma foldl_digits: "\<forall>c\<in>set s. digit_val c \<noteq> None \<Longrightarrow>
   digits_acc a s = Some (foldl (\<lambda>a c. a * 10 + the (digit_val c)) a s)"
proof (induction a s rule: digits_acc.induct)
  case (1 a) show ?case by simp
next
  case (2 a c) then show ?case by auto
next
  case (3 a c d s)
  then have "c \<noteq> CHR ''_''" by (auto simp: digit_val_def)
  with 3 show ?case by auto
qed

lemma str_nat_digits: "\<forall>c\<in>set (str_nat n). digit_val c \<noteq> None"
proof (induction n rule: str_nat.induct)
  case (1 n)
  show ?case
  proof (cases "n < 10")
    case True then show ?thesis by (simp add: str_nat.simps[of n] digit_val_digit_char)
  next
    case False
    with 1 show ?thesis by (simp add: str_nat.simps[of n] digit_val_digit_char)
  qed
qed

lemma str_nat_value: "foldl (\<lambda>a c. a * 10 + the (digit_val c)) 0 (str_nat n) = n"
proof (induction n rule: str_nat.induct)
  case (1 n)
  show ?case
  proof (cases "n < 10")
    case True then show ?thesis by (simp add: str_nat.simps[of n] digit_val_digit_char)
  next
    case False
    with 1 show ?thesis by (simp add: str_nat.simps[of n] digit_val_digit_char)
  qed
qed

lemma str_nat_not_Nil: "str_nat n \<noteq> []"
  by (simp add: str_nat.simps[of n])

lemma str_nat_hd_last: "\<exists>d e r. str_nat n = digit_char d # r \<and> last (str_nat n) = digit_char e"
proof (induction n rule: str_nat.induct)
  case (1 n)
  show ?case
  proof (cases "n < 10")
    case True
    then have "str_nat n = [digit_char n]" by (simp add: str_nat.simps[of n])
    then show ?thesis by auto
  next
    case False
    with 1 obtain d r where "str_nat (n div 10) = digit_char d # r" by blast
    with False show ?thesis by (auto simp add: str_nat.simps[of n])
  qed
qed

lemma parse_nat_str_nat: "parse_nat (str_nat n) = Some n"
proof -
  obtain c r where cr: "str_nat n = c # r" using str_nat_not_Nil by (cases "str_nat n") auto
  have dig: "\<forall>x\<in>set (c # r). digit_val x \<noteq> None" using str_nat_digits[of n] cr by simp
  then obtain v where v: "digit_val c = Some v" by auto
  have "parse_nat (c # r) = Some (foldl (\<lambda>a c. a * 10 + the (digit_val c)) v r)"
    using dig v by (simp add: foldl_digits)
  also have "foldl (\<lambda>a c. a * 10 + the (digit_val c)) v r = foldl (\<lambda>a c. a * 10 + the (digit_val c)) 0 (c # r)"
    using v by simp
  also have "\<dots> = n" using str_nat_value[of n] cr by simp
  finally show ?thesis using cr by simp
qed

lemma trim_id: "s \<noteq> [] \<Longrightarrow> \<not> sp (hd s) \<Longrightarrow> \<not> sp (last s) \<Longrightarrow> trim sp s = s"
proof -
  assume a: "s \<noteq> []" "\<not> sp (hd s)" "\<not> sp (last s)"
  then have 1: "dropWhile sp s = s" by (simp add: dropWhile_eq_self_iff)
  from a have "hd (rev s) = last s" by (simp add: hd_rev)
  with a have 2: "dropWhile sp (rev s) = rev s" by (simp add: dropWhile_eq_self_iff)
  show ?thesis by (simp add: trim_def 1 2)
qed

lemma trim_str_int: "trim is_int_space (str_int i) = str_int i"
proof -
  obtain d e r where h: "str_nat (nat \<bar>i\<bar>) = digit_char d # r" "last (str_nat (nat \<bar>i\<bar>)) = digit_char e"
    using str_nat_hd_last by blast
  show ?thesis
  proof (cases "i < 0")
    case True
    then have "str_int i = CHR ''-'' # str_nat (nat \<bar>i\<bar>)" by (simp add: str_int_def)
    moreover have "\<not> is_int_space (CHR ''-'')" by (simp add: is_int_space_def)
    ultimately show ?thesis using h by (intro trim_id) (auto simp: digit_char_not_space)
  next
    case False
    then have "str_int i = str_nat (nat \<bar>i\<bar>)" by (simp add: str_int_def)
    then show ?thesis using h by (intro trim_id) (auto simp: digit_char_not_space)
  qed
qed

lemma py_int_str_int: "py_int (str_int i) = Some i"
proof (cases "i < 0")
  case True
  then have e: "str_int i = CHR ''-'' # str_nat (nat (- i))" by (simp add: str_int_def)
  show ?thesis using True
    by (simp add: py_int_def trim_str_int) (simp add: e parse_nat_str_nat)
next
  case False
  obtain d r where h: "str_nat (nat i) = digit_char d # r" using str_nat_hd_last by blast
  from False have e: "str_int i = str_nat (nat i)" by (simp add: str_int_def)
  have "py_int (str_int i) = map_option int (parse_nat (digit_char d # r))"
    by (simp add: py_int_def trim_str_int) (simp add: e h digit_char_not_sign)
  then show ?thesis using False parse_nat_str_nat[of "nat i"] h by simp
qed

lemma str_int_not_Nil: "str_int i \<noteq> []"
  by (simp add: str_int_def str_nat_not_Nil)

section \<open>Rendering\<close>

lemma insert_rows_ok:
  "[] \<notin> set (map row_id rows) \<Longrightarrow> distinct (map fst (tree_items s) @ map row_id rows) \<Longrightarrow>
   insert_rows rows s = (None, s\<lparr>tree_items := tree_items s @ map tree_item rows\<rparr>)"
proof (induction rows arbitrary: s)
  case Nil
  show ?case by simp
next
  case (Cons row rows)
  from Cons.prems obtain v vs where row: "row = v # vs" by (cases row) (auto simp: row_id_def)
  from Cons.prems row have ins:
    "tree_insert (py_str v) row s = Inr (s\<lparr>tree_items := tree_items s @ [tree_item row]\<rparr>)"
    by (auto simp: tree_insert_def row_id_def tree_item_def)
  have "insert_rows rows (s\<lparr>tree_items := tree_items s @ [tree_item row]\<rparr>) =
        (None, s\<lparr>tree_items := tree_items s @ [tree_item row]\<rparr>
                 \<lparr>tree_items := tree_items (s\<lparr>tree_items := tree_items s @ [tree_item row]\<rparr>) @ map tree_item rows\<rparr>)"
    using Cons.prems by (intro Cons.IH) (auto simp: tree_item_def)
  then show ?case using row ins by simp
qed

lemma insert_rows_None:
  "fst (insert_rows rows s) = None \<Longrightarrow>
   [] \<notin> set (map row_id rows) \<and> distinct (map row_id rows) \<and>
   set (map row_id rows) \<inter> set (map fst (tree_items s)) = {}"
proof (induction rows arbitrary: s)
  case Nil
  show ?case by simp
next
  case (Cons row rows)
  from Cons.prems obtain v vs where row: "row = v # vs" by (cases row) auto
  from Cons.prems row obtain s' where ins: "tree_insert (py_str v) row s = Inr s'"
    by (cases "tree_insert (py_str v) row s") auto
  then have s': "s' = s\<lparr>tree_items := tree_items s @ [(py_str v, map py_str row)]\<rparr>"
    and ok: "py_str v \<noteq> []" "py_str v \<notin> set (map fst (tree_items s))"
    by (auto simp: tree_insert_def split: if_splits)
  from Cons.prems row ins have "fst (insert_rows rows s') = None" by simp
  from Cons.IH[OF this] s' ok row show ?case by (auto simp: row_id_def)
qed

lemma refresh_tree_ok:
  assumes "renderable rows"
  shows "refresh_tree rows s =
     (None, s\<lparr>tree_items := map tree_item rows, tree_selection := [],
              status_var := ''Loaded '' @ str_nat (length rows) @ '' entries'',
              details_button := DISABLED\<rparr>)"
proof -
  have "insert_rows rows (s\<lparr>tree_items := [], tree_selection := []\<rparr>) =
        (None, s\<lparr>tree_items := [], tree_selection := []\<rparr>
                \<lparr>tree_items := tree_items (s\<lparr>tree_items := [], tree_selection := []\<rparr>) @ map tree_item rows\<rparr>)"
    using assms by (intro insert_rows_ok) (auto simp: renderable_def)
  then show ?thesis by (simp add: refresh_tree_def)
qed

lemma refresh_tree_None: "fst (refresh_tree rows s) = None \<Longrightarrow> renderable rows"
proof -
  assume a: "fst (refresh_tree rows s) = None"
  have "fst (insert_rows rows (s\<lparr>tree_items := [], tree_selection := []\<rparr>)) = None"
    using a by (auto simp: refresh_tree_def split: prod.splits option.splits)
  from insert_rows_None[OF this] show ?thesis by (simp add: renderable_def)
qed

lemma renderable_filter: "renderable rows \<Longrightarrow> renderable (filter P rows)"
  by (auto simp: renderable_def distinct_map_filter)

lemma insert_rows_frame:
  "insert_rows rows s = (e, s') \<Longrightarrow>
   s' = s\<lparr>tree_items := tree_items s'\<rparr> \<and>
   insert_rows rows (t\<lparr>tree_items := tree_items s\<rparr>) = (e, t\<lparr>tree_items := tree_items s'\<rparr>)"
proof (induction rows arbitrary: s t)
  case Nil
  then show ?case by auto
next
  case (Cons row rows)
  show ?case
  proof (cases row)
    case Nil
    with Cons.prems show ?thesis by auto
  next
    case (Cons v vs)
    show ?thesis
    proof (cases "py_str v = [] \<or> py_str v \<in> set (map fst (tree_items s))")
      case True
      with Cons Cons.prems show ?thesis by (auto simp: tree_insert_def)
    next
      case False
      let ?s1 = "s\<lparr>tree_items := tree_items s @ [(py_str v, map py_str row)]\<rparr>"
      from False Cons Cons.prems have r: "insert_rows rows ?s1 = (e, s')"
        by (auto simp: tree_insert_def)
      from Cons.IH[OF r, of "t\<lparr>tree_items := tree_items s\<rparr>"] False Cons
      show ?thesis by (auto simp: tree_insert_def)
    qed
  qed
qed

lemma row_matches_contains: "row_matches t row \<longleftrightarrow> contains_text t row"
  by (simp add: row_matches_def contains_text_def list_ex_iff py_in_sublist)

section \<open>Filtering and the states of a running window\<close>

lemma py_lower_Nil_iff: "py_lower s = [] \<longleftrightarrow> s = []"
  by (simp add: py_lower_def)

lemma contains_Nil: "row \<noteq> [] \<Longrightarrow> contains_text [] row"
  by (cases row) (auto simp: contains_text_def)

lemma renderable_not_Nil: "renderable rows \<Longrightarrow> r \<in> set rows \<Longrightarrow> r \<noteq> []"
proof
  assume a: "renderable rows" "r \<in> set rows" "r = []"
  then have "row_id r \<in> set (map row_id rows)" by simp
  moreover have "row_id r = []" using a by (simp add: row_id_def)
  ultimately show False using a by (simp add: renderable_def)
qed

lemma filter_rows_ok:
  assumes "renderable (malware_rows s)"
  shows "filter_rows s =
     (None, s\<lparr>tree_items := map tree_item (visible_rows (search_var s) (malware_rows s)),
              tree_selection := [],
              status_var := ''Loaded '' @ str_nat (length (visible_rows (search_var s) (malware_rows s))) @ '' entries'',
              details_button := DISABLED\<rparr>)"
proof (cases "py_strip (search_var s) = []")
  case True
  then show ?thesis using assms
    by (simp add: filter_rows_def visible_rows_def py_lower_Nil_iff refresh_tree_ok)
next
  case False
  have eq: "filter (row_matches (py_lower (py_strip (search_var s)))) (malware_rows s) =
        visible_rows (search_var s) (malware_rows s)"
    using False by (simp add: visible_rows_def row_matches_contains[abs_def])
  have "renderable (visible_rows (search_var s) (malware_rows s))"
    using assms False by (simp add: visible_rows_def renderable_filter)
  then show ?thesis using False
    by (simp add: filter_rows_def Let_def py_lower_Nil_iff eq refresh_tree_ok)
qed

lemma show_selected_details_frame:
  "malware_rows (snd (show_selected_details db s)) = malware_rows s \<and>
   search_var (snd (show_selected_details db s)) = search_var s \<and>
   tree_items (snd (show_selected_details db s)) = tree_items s \<and>
   tree_selection (snd (show_selected_details db s)) = tree_selection s \<and>
   details_button (snd (show_selected_details db s)) = details_button s \<and>
   status_var (snd (show_selected_details db s)) = status_var s"
  unfolding show_selected_details_def notify_def Let_def
  by (simp split: list.splits option.splits sum.splits)

lemma visible_rows_renderable: "renderable C \<Longrightarrow> renderable (visible_rows T C)"
  by (simp add: visible_rows_def renderable_filter)

lemma init_gui_state:
  assumes "init_gui db = Inr s"
  shows "renderable (malware_rows s) \<and> search_var s = [] \<and>
         tree_items s = map tree_item (malware_rows s) \<and> tree_selection s = [] \<and>
         details_button s = DISABLED"
proof (cases "get_partial_details db")
  case (Inl msg)
  have r: "renderable []" by (simp add: renderable_def)
  from assms Inl show ?thesis
    by (auto simp: init_gui_def load_data_def Let_def refresh_tree_ok[OF r] build_layout_def r)
next
  case (Inr rows)
  let ?s1 = "build_layout\<lparr>db_calls := db_calls build_layout @ [GetPartialDetails], malware_rows := rows\<rparr>"
  from assms Inr have "fst (refresh_tree rows ?s1) = None"
    by (auto simp: init_gui_def load_data_def Let_def split: prod.splits option.splits)
  then have r: "renderable rows" by (rule refresh_tree_None)
  from assms Inr show ?thesis
    by (auto simp: init_gui_def load_data_def Let_def refresh_tree_ok[OF r] build_layout_def r)
qed

lemma visible_rows_Nil: "visible_rows [] C = C"
  by (simp add: visible_rows_def py_strip_def trim_def)

lemma reachable_invariant:
  assumes "reachable db s"
  shows "renderable (malware_rows s) \<and>
         (details_button s = NORMAL \<longleftrightarrow> tree_selection s \<noteq> []) \<and>
         (\<exists>T. tree_items s = map tree_item (visible_rows T (malware_rows s)))"
  using assms
proof (induction rule: reachable.induct)
  case (reachable_init s)
  note st = init_gui_state[OF this]
  from st have "tree_items s = map tree_item (visible_rows [] (malware_rows s))"
    by (simp add: visible_rows_Nil)
  then have "\<exists>T. tree_items s = map tree_item (visible_rows T (malware_rows s))" ..
  with st show ?case by simp
next
  case (reachable_step s ev)
  show ?case
  proof (cases ev)
    case (EditText T)
    then show ?thesis using reachable_step.IH by simp
  next
    case KeyRelease
    have r: "renderable (malware_rows s)" using reachable_step.IH by simp
    have "tree_items (handle db ev s) =
        map tree_item (visible_rows (search_var s) (malware_rows (handle db ev s)))"
      by (simp add: KeyRelease filter_rows_ok[OF r])
    then have "\<exists>T. tree_items (handle db ev s) =
        map tree_item (visible_rows T (malware_rows (handle db ev s)))" ..
    then show ?thesis using r by (simp add: KeyRelease filter_rows_ok[OF r])
  next
    case (TreeviewSelect sel)
    then show ?thesis using reachable_step.IH by (simp add: on_select_def)
  next
    case ShowDetails
    then show ?thesis using reachable_step.IH by (simp add: show_selected_details_frame)
  qed
qed

lemma refresh_tree_keeps:
  "malware_rows (snd (refresh_tree rows s)) = malware_rows s \<and>
   search_var (snd (refresh_tree rows s)) = search_var s \<and>
   notifications (snd (refresh_tree rows s)) = notifications s \<and>
   db_calls (snd (refresh_tree rows s)) = db_calls s"
proof -
  obtain e s' where r: "insert_rows rows (s\<lparr>tree_items := [], tree_selection := []\<rparr>) = (e, s')"
    by (cases "insert_rows rows (s\<lparr>tree_items := [], tree_selection := []\<rparr>)") auto
  from insert_rows_frame[OF r, of s]
  have s': "s' = s\<lparr>tree_items := [], tree_selection := []\<rparr>\<lparr>tree_items := tree_items s'\<rparr>" by simp
  have "malware_rows s' = malware_rows s \<and> search_var s' = search_var s \<and>
        notifications s' = notifications s \<and> db_calls s' = db_calls s"
    by (subst s', simp)+
  then show ?thesis using r by (cases e) (simp_all add: refresh_tree_def)
qed

lemma filter_rows_keeps_cache: "malware_rows (snd (filter_rows s)) = malware_rows s"
  by (simp add: filter_rows_def Let_def refresh_tree_keeps)

lemma refresh_tree_idem: "refresh_tree rows (snd (refresh_tree rows s)) = refresh_tree rows s"
proof -
  let ?s0 = "s\<lparr>tree_items := [], tree_selection := []\<rparr>"
  obtain e s' where r: "insert_rows rows ?s0 = (e, s')"
    by (cases "insert_rows rows ?s0") auto
  from insert_rows_frame[OF r]
  have s': "s' = ?s0\<lparr>tree_items := tree_items s'\<rparr>"
    and g: "\<And>t. insert_rows rows (t\<lparr>tree_items := []\<rparr>) = (e, t\<lparr>tree_items := tree_items s'\<rparr>)"
    by simp_all
  show ?thesis
  proof (cases e)
    case (Some x)
    have "s'\<lparr>tree_items := [], tree_selection := []\<rparr> = ?s0"
      by (subst s') simp
    with r Some show ?thesis by (simp add: refresh_tree_def)
  next
    case None
    define st where "st = ''Loaded '' @ str_nat (length rows) @ '' entries''"
    define t where "t = s\<lparr>tree_selection := [], status_var := st, details_button := DISABLED\<rparr>"
    have 1: "refresh_tree rows s = (None, s'\<lparr>status_var := st, details_button := DISABLED\<rparr>)"
      using r None by (simp add: refresh_tree_def st_def)
    have 2: "s'\<lparr>status_var := st, details_button := DISABLED\<rparr> = t\<lparr>tree_items := tree_items s'\<rparr>"
      unfolding t_def by (subst s') simp
    have 3: "t\<lparr>tree_items := tree_items s'\<rparr>\<lparr>tree_items := [], tree_selection := []\<rparr> = t\<lparr>tree_items := []\<rparr>"
      unfolding t_def by simp
    have 4: "t\<lparr>tree_items := tree_items s'\<rparr>\<lparr>status_var := st, details_button := DISABLED\<rparr> =
             t\<lparr>tree_items := tree_items s'\<rparr>"
      unfolding t_def by simp
    have "refresh_tree rows (t\<lparr>tree_items := tree_items s'\<rparr>) =
          (None, t\<lparr>tree_items := tree_items s'\<rparr>\<lparr>status_var := st, details_button := DISABLED\<rparr>)"
      by (simp only: refresh_tree_def 3 g[of t] None st_def prod.case option.case)
    then show ?thesis by (simp only: 1 2 4 snd_conv)
  qed
qed

section \<open>Showing details\<close>

lemma info_lines_Some:
  assumes "info_lines d = Some ls"
  shows "\<exists>x y rest. ls = (''Name: '' @ x) # y # rest"
  using assms by (rule info_lines.elims) auto

lemma join_lines_detail:
  assumes "info_lines d = Some ls"
  shows "join_lines ls \<noteq> ''No additional metadata available.''"
proof -
  from info_lines_Some[OF assms] obtain x y rest where "ls = (''Name: '' @ x) # y # rest"
    by blast
  then show ?thesis by simp
qed

lemma filter_first:
  assumes "i < length xs" and "P (xs ! i)" and "\<forall>j<i. \<not> P (xs ! j)"
  shows "\<exists>ys. filter P xs = xs ! i # ys"
proof -
  have xs: "xs = take i xs @ xs ! i # drop (Suc i) xs"
    using assms(1) by (simp add: id_take_nth_drop)
  have "filter P (take i xs) = []"
  proof -
    have "\<forall>x \<in> set (take i xs). \<not> P x"
    proof
      fix x assume "x \<in> set (take i xs)"
      then obtain j where "j < length (take i xs)" "take i xs ! j = x"
        by (auto simp: in_set_conv_nth)
      then have "j < i" "xs ! j = x" by auto
      with assms(3) show "\<not> P x" by auto
    qed
    then show ?thesis by (simp add: filter_empty_conv)
  qed
  then have "filter P xs = xs ! i # filter P (drop (Suc i) xs)"
    using assms(2) by (subst xs) simp
  then show ?thesis by blast
qed

lemma show_details_db_calls:
  assumes "tree_selection s = sel # rest" and "py_int sel = Some n"
  shows "db_calls (snd (show_selected_details db s)) = db_calls s @ [GetMalInfo n]"
  using assms unfolding show_selected_details_def notify_def Let_def
  by (simp split: sum.splits list.splits option.splits)

section \<open>The claims\<close>

lemmas eval_simps =
  py_lower_def lower_char_def char_of_def bit_Suc_0_iff py_strip_def trim_def is_space_def
  is_int_space_def str_int_def str_nat.simps digit_char_def digit_val_def row_id_def
  tree_item_def

lemma example_rows_renderable: "renderable example_rows"
  by (simp add: renderable_def example_rows_def row_id_def str_int_def str_nat.simps digit_char_def)

lemma latin_rows_renderable: "renderable latin_rows"
  by (simp add: renderable_def latin_rows_def row_id_def str_int_def str_nat.simps digit_char_def)

lemma py_int_examples: "py_int ''1'' = Some 1" "py_int ''2'' = Some 2"
  by (simp_all add: py_int_def trim_def is_int_space_def digit_val_def)

lemma example_init: "init_gui example_db = Inr (snd (load_data example_db build_layout))"
  by (simp add: init_gui_def load_data_def example_db_def Let_def
      refresh_tree_ok[OF example_rows_renderable])

lemma example_cache: "malware_rows (snd (load_data example_db build_layout)) = example_rows"
  by (simp add: load_data_def example_db_def Let_def refresh_tree_keeps)

lemma example_items:
  "tree_items (snd (load_data example_db build_layout)) =
     [(''1'', [''1'', ''Trojan'', ''C'', ''x86'', ''Win'', ''A'']),
      (''2'', [''2'', ''Worm'', ''Python'', ''x64'', ''Linux'', ''B''])]"
  by (simp add: load_data_def example_db_def Let_def refresh_tree_ok[OF example_rows_renderable])
     (simp add: example_rows_def eval_simps)

lemma latin_init: "init_gui latin_db = Inr (snd (load_data latin_db build_layout))"
  by (simp add: init_gui_def load_data_def latin_db_def Let_def
      refresh_tree_ok[OF latin_rows_renderable])

lemma latin_cache: "malware_rows (snd (load_data latin_db build_layout)) = latin_rows"
  by (simp add: load_data_def latin_db_def Let_def refresh_tree_keeps)

lemma visible_linux: "visible_rows ''linux'' example_rows =
    [[PInt 2, PStr ''Worm'', PStr ''Python'', PStr ''x64'', PStr ''Linux'', PStr ''B'']]"
proof -
  have "filter (row_matches ''linux'') example_rows =
    [[PInt 2, PStr ''Worm'', PStr ''Python'', PStr ''x64'', PStr ''Linux'', PStr ''B'']]"
    by (simp add: example_rows_def row_matches_def eval_simps)
  then show ?thesis
    unfolding row_matches_contains[abs_def] by (simp add: visible_rows_def eval_simps)
qed

text \<open>
  C1. For every non-empty filter text \<open>T\<close> and every row cache \<open>C\<close>, the filter operation
  shows exactly the rows of \<open>C\<close> in which \<open>T\<close>, trimmed and in lower case, is a contiguous
  part of the lower-case string form of at least one field, in the order they have in \<open>C\<close>.
  The cache is that of any state of a running window, whatever the database returned when
  the window was built. The table then holds, for each such row, the item made of it, and
  no exception is raised.
\<close>

theorem filter_rows_shows_matching_rows:
  assumes "reachable db s" and "T \<noteq> []"
  shows "fst (filter_rows (s\<lparr>search_var := T\<rparr>)) = None \<and>
         tree_items (snd (filter_rows (s\<lparr>search_var := T\<rparr>))) =
           map tree_item (filter (contains_text (py_lower (py_strip T))) (malware_rows s))"
proof -
  have c: "renderable (malware_rows s)" using reachable_invariant[OF assms(1)] by simp
  then have r: "renderable (malware_rows (s\<lparr>search_var := T\<rparr>))" by simp
  have "filter (contains_text []) (malware_rows s) = malware_rows s"
    using renderable_not_Nil[OF c] by (simp add: filter_id_conv contains_Nil)
  then have "visible_rows T (malware_rows s) =
        filter (contains_text (py_lower (py_strip T))) (malware_rows s)"
    by (simp add: visible_rows_def py_lower_def)
  then show ?thesis by (simp add: filter_rows_ok[OF r])
qed

theorem filter_rows_shows_matching_rows_witness:
  "reachable latin_db (snd (load_data latin_db build_layout)) \<and> '' LINUX'' \<noteq> [] \<and>
   fst (filter_rows ((snd (load_data latin_db build_layout))\<lparr>search_var := '' LINUX''\<rparr>)) = None \<and>
   tree_items (snd (filter_rows ((snd (load_data latin_db build_layout))\<lparr>search_var := '' LINUX''\<rparr>))) =
     [(''2'', [''2'', ''Worm'', ''Python'', ''x64'', ''Linux'', ''B''])] \<and>
   tree_items (snd (filter_rows ((snd (load_data latin_db build_layout))
       \<lparr>search_var := [CHR 0xA0] @ ''caf'' @ [CHR 0xE9, CHR 0x20]\<rparr>))) =
     [(''3'', [''3'', ''Virus'', ''None'', ''x86'', ''DOS'', ''CAF'' @ [CHR 0xC9]])] \<and>
   tree_items (snd (filter_rows ((snd (load_data latin_db build_layout))\<lparr>search_var := ''NONE''\<rparr>))) =
     [(''3'', [''3'', ''Virus'', ''None'', ''x86'', ''DOS'', ''CAF'' @ [CHR 0xC9]])]"
proof -
  have h: "reachable latin_db (snd (load_data latin_db build_layout))"
    by (rule reachable_init[OF latin_init])
  have t: "py_lower (py_strip '' LINUX'') = ''linux''"
      "py_lower (py_strip ([CHR 0xA0] @ ''caf'' @ [CHR 0xE9, CHR 0x20])) = ''caf'' @ [CHR 0xE9]"
      "py_lower (py_strip ''NONE'') = ''none''"
    by (simp_all add: eval_simps)
  have f: "filter (contains_text ''linux'') latin_rows =
        [[PInt 2, PStr ''Worm'', PStr ''Python'', PStr ''x64'', PStr ''Linux'', PStr ''B'']]"
      "filter (contains_text (''caf'' @ [CHR 0xE9])) latin_rows =
        [[PInt 3, PStr ''Virus'', PNone, PStr ''x86'', PStr ''DOS'', PStr (''CAF'' @ [CHR 0xC9])]]"
      "filter (contains_text ''none'') latin_rows =
        [[PInt 3, PStr ''Virus'', PNone, PStr ''x86'', PStr ''DOS'', PStr (''CAF'' @ [CHR 0xC9])]]"
    unfolding row_matches_contains[symmetric]
    by (simp_all add: latin_rows_def row_matches_def eval_simps)
  have n: "'' LINUX'' \<noteq> []" "[CHR 0xA0] @ ''caf'' @ [CHR 0xE9, CHR 0x20] \<noteq> []" "''NONE'' \<noteq> []"
    by simp_all
  show ?thesis
    using h filter_rows_shows_matching_rows[OF h n(1)]
      filter_rows_shows_matching_rows[OF h n(2)]
      filter_rows_shows_matching_rows[OF h n(3)]
    by (simp only: latin_cache t f) (simp add: eval_simps)
qed




text \<open>
  C3. When \<^verbatim>\<open>get_partial_details\<close> raises, \<^verbatim>\<open>_load_data\<close> opens an error box with the
  message, empties the cache and still renders: the table is empty, the status line reads
  \<^verbatim>\<open>Loaded 0 entries\<close>, and no exception leaves the method, so the constructor returns
  the window.
\<close>

theorem load_data_failure_shows_empty_table:
  assumes "get_partial_details db = Inl msg"
  shows "fst (load_data db s) = None \<and>
         notifications (snd (load_data db s)) = notifications s @ [ShowError ''Database Error'' msg] \<and>
         malware_rows (snd (load_data db s)) = [] \<and>
         tree_items (snd (load_data db s)) = [] \<and>
         status_var (snd (load_data db s)) = ''Loaded 0 entries'' \<and>
         init_gui db = Inr (snd (load_data db build_layout))"
proof -
  have r: "renderable []" by (simp add: renderable_def)
  have z: "str_nat 0 = ''0''" by (simp add: str_nat.simps digit_char_def)
  show ?thesis using assms
    by (simp add: init_gui_def load_data_def Let_def refresh_tree_ok[OF r] z)
qed

theorem load_data_failure_shows_empty_table_witness:
  "get_partial_details failing_db = Inl ''unable to open database file'' \<and>
   init_gui failing_db = Inr (snd (load_data failing_db build_layout)) \<and>
   notifications (snd (load_data failing_db build_layout)) =
     [ShowError ''Database Error'' ''unable to open database file''] \<and>
   tree_items (snd (load_data failing_db build_layout)) = [] \<and>
   status_var (snd (load_data failing_db build_layout)) = ''Loaded 0 entries''"
proof -
  have h: "get_partial_details failing_db = Inl ''unable to open database file''"
    by (simp add: failing_db_def)
  show ?thesis
    using h load_data_failure_shows_empty_table[OF h, of build_layout]
    by (simp add: build_layout_def)
qed

text \<open>
  C4. \<^verbatim>\<open>_show_selected_details\<close> does nothing when no row is selected. With a row
  selected, whose id reads as the integer \<open>n\<close>: when \<^verbatim>\<open>get_mal_info\<close> raises, an error
  box with the message is opened and the method returns; when it returns an empty
  sequence, an information box says that no additional metadata is available; when it
  returns a detail tuple, the detail dialog is opened with its lines. The detail dialog
  opens only when \<^verbatim>\<open>get_mal_info\<close> returned a non-empty result. No outcome raises.
\<close>

theorem show_details_outcomes:
  "(tree_selection s = [] \<longrightarrow> show_selected_details db s = (None, s)) \<and>
   (tree_selection s = sel # rest \<and> py_int sel = Some n \<and> get_mal_info db n = Inl msg \<longrightarrow>
      show_selected_details db s =
        (None, s\<lparr>db_calls := db_calls s @ [GetMalInfo n],
                 notifications := notifications s @ [ShowError ''Database Error'' msg]\<rparr>)) \<and>
   (tree_selection s = sel # rest \<and> py_int sel = Some n \<and> get_mal_info db n = Inr [] \<longrightarrow>
      show_selected_details db s =
        (None, s\<lparr>db_calls := db_calls s @ [GetMalInfo n],
                 notifications := notifications s @
                   [ShowInfo ''Malware Info'' ''No additional metadata available.'']\<rparr>)) \<and>
   (tree_selection s = sel # rest \<and> py_int sel = Some n \<and> get_mal_info db n = Inr (d # ds) \<and>
    info_lines d = Some ls \<longrightarrow>
      show_selected_details db s =
        (None, s\<lparr>db_calls := db_calls s @ [GetMalInfo n],
                 notifications := notifications s @ [ShowInfo ''Malware Info'' (join_lines ls)]\<rparr>)) \<and>
   ((\<exists>d' ls'. info_lines d' = Some ls' \<and>
        notifications (snd (show_selected_details db s)) =
          notifications s @ [ShowInfo ''Malware Info'' (join_lines ls')]) \<longrightarrow>
      (\<exists>sel' rest' n' d' ds'. tree_selection s = sel' # rest' \<and> py_int sel' = Some n' \<and>
          get_mal_info db n' = Inr (d' # ds')))"
proof (intro conjI impI)
  show "show_selected_details db s = (None, s)" if "tree_selection s = []"
    using that by (simp add: show_selected_details_def)
next
  assume "tree_selection s = sel # rest \<and> py_int sel = Some n \<and> get_mal_info db n = Inl msg"
  then show "show_selected_details db s =
        (None, s\<lparr>db_calls := db_calls s @ [GetMalInfo n],
                 notifications := notifications s @ [ShowError ''Database Error'' msg]\<rparr>)"
    by (simp add: show_selected_details_def notify_def)
next
  assume "tree_selection s = sel # rest \<and> py_int sel = Some n \<and> get_mal_info db n = Inr []"
  then show "show_selected_details db s =
        (None, s\<lparr>db_calls := db_calls s @ [GetMalInfo n],
                 notifications := notifications s @
                   [ShowInfo ''Malware Info'' ''No additional metadata available.'']\<rparr>)"
    by (simp add: show_selected_details_def notify_def)
next
  assume "tree_selection s = sel # rest \<and> py_int sel = Some n \<and> get_mal_info db n = Inr (d # ds) \<and>
    info_lines d = Some ls"
  then show "show_selected_details db s =
        (None, s\<lparr>db_calls := db_calls s @ [GetMalInfo n],
                 notifications := notifications s @ [ShowInfo ''Malware Info'' (join_lines ls)]\<rparr>)"
    by (simp add: show_selected_details_def notify_def)
next
  assume "\<exists>d' ls'. info_lines d' = Some ls' \<and>
        notifications (snd (show_selected_details db s)) =
          notifications s @ [ShowInfo ''Malware Info'' (join_lines ls')]"
  then obtain d' ls' where i: "info_lines d' = Some ls'"
    and n: "notifications (snd (show_selected_details db s)) =
          notifications s @ [ShowInfo ''Malware Info'' (join_lines ls')]" by blast
  note j = join_lines_detail[OF i]
  show "\<exists>sel' rest' n' d' ds'. tree_selection s = sel' # rest' \<and> py_int sel' = Some n' \<and>
          get_mal_info db n' = Inr (d' # ds')"
  proof (cases "tree_selection s")
    case Nil
    with n show ?thesis by (simp add: show_selected_details_def)
  next
    case (Cons sel' rest')
    show ?thesis
    proof (cases "py_int sel'")
      case None
      with n Cons show ?thesis by (simp add: show_selected_details_def)
    next
      case (Some n')
      show ?thesis
      proof (cases "get_mal_info db n'")
        case (Inl m)
        with n Cons Some show ?thesis by (simp add: show_selected_details_def notify_def)
      next
        case (Inr res)
        show ?thesis
        proof (cases res)
          case Nil
          with n Cons Some Inr j show ?thesis
            by (simp add: show_selected_details_def notify_def)
        next
          case (Cons d'' ds'')
          with \<open>tree_selection s = sel' # rest'\<close> Some Inr show ?thesis by blast
        qed
      qed
    qed
  qed
qed

theorem show_details_outcomes_witness:
  "show_selected_details example_db build_layout = (None, build_layout) \<and>
   tree_selection (build_layout\<lparr>tree_selection := [''1'']\<rparr>) = ''1'' # [] \<and> py_int ''1'' = Some 1 \<and>
   get_mal_info failing_db 1 = Inl ''unable to open database file'' \<and>
   notifications (snd (show_selected_details failing_db (build_layout\<lparr>tree_selection := [''1'']\<rparr>))) =
     [ShowError ''Database Error'' ''unable to open database file''] \<and>
   get_mal_info example_db 1 = Inr [] \<and>
   notifications (snd (show_selected_details example_db (build_layout\<lparr>tree_selection := [''1'']\<rparr>))) =
     [ShowInfo ''Malware Info'' ''No additional metadata available.'']"
proof -
  have a: "tree_selection build_layout = []" by (simp add: build_layout_def)
  have b: "tree_selection (build_layout\<lparr>tree_selection := [''1'']\<rparr>) = ''1'' # []" by simp
  have c: "get_mal_info failing_db 1 = Inl ''unable to open database file''"
    by (simp add: failing_db_def)
  have d: "get_mal_info example_db 1 = Inr []" by (simp add: example_db_def)
  have n: "notifications build_layout = []" by (simp add: build_layout_def)
  show ?thesis
    using a b c d py_int_examples(1)
      show_details_outcomes[where s = build_layout and db = example_db]
      show_details_outcomes[where s = "build_layout\<lparr>tree_selection := [''1'']\<rparr>" and db = failing_db
        and sel = "''1''" and rest = "[]" and n = 1 and msg = "''unable to open database file''"]
      show_details_outcomes[where s = "build_layout\<lparr>tree_selection := [''1'']\<rparr>" and db = example_db
        and sel = "''1''" and rest = "[]" and n = 1]
    by (simp add: n)
qed

text \<open>
  C5. For a detail tuple of nine fields the dialog shows nine labelled lines, in the
  order Name, Type, Version, Author, Language, Date, Architecture, Platform, Tags, each
  line but the last ended by a line feed. A field that is \<^verbatim>\<open>None\<close> or the empty string
  is shown as \<^verbatim>\<open>N/A\<close>, every field that counts as true is shown in its string form; an
  author \<^verbatim>\<open>None\<close> gives the line \<^verbatim>\<open>Author: N/A\<close>.
\<close>

theorem detail_dialog_lines:
  assumes "tree_selection s = sel # rest" and "py_int sel = Some n"
    and "get_mal_info db n =
           Inr ([mal_type, name, version, author, language, date, architecture, platform, tags] # others)"
  shows "notifications (snd (show_selected_details db s)) =
           notifications s @
             [ShowInfo ''Malware Info''
                (''Name: '' @ or_na name @ [CHR 0x0A] @
                 ''Type: '' @ or_na mal_type @ [CHR 0x0A] @
                 ''Version: '' @ or_na version @ [CHR 0x0A] @
                 ''Author: '' @ or_na author @ [CHR 0x0A] @
                 ''Language: '' @ or_na language @ [CHR 0x0A] @
                 ''Date: '' @ or_na date @ [CHR 0x0A] @
                 ''Architecture: '' @ or_na architecture @ [CHR 0x0A] @
                 ''Platform: '' @ or_na platform @ [CHR 0x0A] @
                 ''Tags: '' @ or_na tags)] \<and>
         (\<forall>v. v = PNone \<or> v = PStr [] \<longrightarrow> or_na v = ''N/A'') \<and>
         (\<forall>v. py_bool v \<longrightarrow> or_na v = py_str v) \<and>
         (author = PNone \<longrightarrow>
            ''Author: '' @ or_na author @ [CHR 0x0A] = ''Author: N/A'' @ [CHR 0x0A])"
proof -
  have "notifications (snd (show_selected_details db s)) =
           notifications s @
             [ShowInfo ''Malware Info''
                (''Name: '' @ or_na name @ [CHR 0x0A] @
                 ''Type: '' @ or_na mal_type @ [CHR 0x0A] @
                 ''Version: '' @ or_na version @ [CHR 0x0A] @
                 ''Author: '' @ or_na author @ [CHR 0x0A] @
                 ''Language: '' @ or_na language @ [CHR 0x0A] @
                 ''Date: '' @ or_na date @ [CHR 0x0A] @
                 ''Architecture: '' @ or_na architecture @ [CHR 0x0A] @
                 ''Platform: '' @ or_na platform @ [CHR 0x0A] @
                 ''Tags: '' @ or_na tags)]"
    using assms by (simp add: show_selected_details_def notify_def)
  moreover have "\<forall>v. v = PNone \<or> v = PStr [] \<longrightarrow> or_na v = ''N/A''"
    by (auto simp: or_na_def)
  moreover have "\<forall>v. py_bool v \<longrightarrow> or_na v = py_str v" by (simp add: or_na_def)
  moreover have "author = PNone \<longrightarrow>
      ''Author: '' @ or_na author @ [CHR 0x0A] = ''Author: N/A'' @ [CHR 0x0A]"
    by (simp add: or_na_def)
  ultimately show ?thesis by blast
qed

theorem detail_dialog_lines_witness:
  "tree_selection (build_layout\<lparr>tree_selection := [''2'']\<rparr>) = ''2'' # [] \<and> py_int ''2'' = Some 2 \<and>
   get_mal_info example_db 2 = Inr (example_detail # []) \<and>
   notifications (snd (show_selected_details example_db (build_layout\<lparr>tree_selection := [''2'']\<rparr>))) =
     [ShowInfo ''Malware Info''
        (''Name: B'' @ [CHR 0x0A] @ ''Type: Worm'' @ [CHR 0x0A] @ ''Version: 1.0'' @ [CHR 0x0A] @
         ''Author: N/A'' @ [CHR 0x0A] @ ''Language: Python'' @ [CHR 0x0A] @
         ''Date: 2010'' @ [CHR 0x0A] @ ''Architecture: x64'' @ [CHR 0x0A] @
         ''Platform: Linux'' @ [CHR 0x0A] @ ''Tags: N/A'')]"
proof -
  have b: "tree_selection (build_layout\<lparr>tree_selection := [''2'']\<rparr>) = ''2'' # []" by simp
  have d: "get_mal_info example_db 2 =
      Inr ([PStr ''Worm'', PStr ''B'', PStr ''1.0'', PNone, PStr ''Python'', PStr ''2010'',
            PStr ''x64'', PStr ''Linux'', PStr []] # [])"
    by (simp add: example_db_def example_detail_def)
  have n: "notifications build_layout = []" by (simp add: build_layout_def)
  show ?thesis
    using b d py_int_examples(2) detail_dialog_lines[OF b py_int_examples(2) d]
    by (simp add: n or_na_def example_detail_def)
qed

text \<open>
  C6. A filter text that is empty, or empty once trimmed, shows the whole cache, row by
  row in its order, and leaves the cache unchanged, in every state of a running window,
  whatever the table showed before.
\<close>

theorem filter_rows_empty_text_shows_cache:
  assumes "reachable db s" and "py_strip T = []"
  shows "fst (filter_rows (s\<lparr>search_var := T\<rparr>)) = None \<and>
         tree_items (snd (filter_rows (s\<lparr>search_var := T\<rparr>))) = map tree_item (malware_rows s) \<and>
         malware_rows (snd (filter_rows (s\<lparr>search_var := T\<rparr>))) = malware_rows s"
proof -
  have r: "renderable (malware_rows (s\<lparr>search_var := T\<rparr>))"
    using reachable_invariant[OF assms(1)] by simp
  show ?thesis using assms(2) by (simp add: filter_rows_ok[OF r] visible_rows_def)
qed

theorem filter_rows_empty_text_shows_cache_witness:
  "reachable example_db
     (handle example_db KeyRelease
       (handle example_db (EditText ''linux'') (snd (load_data example_db build_layout)))) \<and>
   py_strip [CHR 0xA0, CHR 0x20, CHR 0x09] = [] \<and>
   tree_items
     (handle example_db KeyRelease
       (handle example_db (EditText ''linux'') (snd (load_data example_db build_layout)))) =
     [(''2'', [''2'', ''Worm'', ''Python'', ''x64'', ''Linux'', ''B''])] \<and>
   tree_items (snd (filter_rows
     ((handle example_db KeyRelease
        (handle example_db (EditText ''linux'') (snd (load_data example_db build_layout))))
      \<lparr>search_var := [CHR 0xA0, CHR 0x20, CHR 0x09]\<rparr>))) =
     [(''1'', [''1'', ''Trojan'', ''C'', ''x86'', ''Win'', ''A'']),
      (''2'', [''2'', ''Worm'', ''Python'', ''x64'', ''Linux'', ''B''])]"
proof -
  let ?s0 = "snd (load_data example_db build_layout)"
  let ?s1 = "handle example_db (EditText ''linux'') ?s0"
  let ?s2 = "handle example_db KeyRelease ?s1"
  have h0: "reachable example_db ?s0" by (rule reachable_init[OF example_init])
  have h1: "reachable example_db ?s1" by (rule reachable_step[OF h0])
  have h2: "reachable example_db ?s2" by (rule reachable_step[OF h1])
  have t: "py_strip [CHR 0xA0, CHR 0x20, CHR 0x09] = []" by (simp add: eval_simps)
  have n: "''linux'' \<noteq> []" by simp
  have r: "renderable (malware_rows (?s0\<lparr>search_var := ''linux''\<rparr>))"
    by (simp add: example_cache example_rows_renderable)
  have mr: "malware_rows ?s2 = example_rows"
    by (simp add: filter_rows_keeps_cache example_cache)
  have narrowed: "tree_items ?s2 = [(''2'', [''2'', ''Worm'', ''Python'', ''x64'', ''Linux'', ''B''])]"
    by (simp add: filter_rows_ok[OF r] example_cache visible_linux) (simp add: eval_simps)
  from filter_rows_empty_text_shows_cache[OF h2 t]
  have "tree_items (snd (filter_rows (?s2\<lparr>search_var := [CHR 0xA0, CHR 0x20, CHR 0x09]\<rparr>))) =
      map tree_item (malware_rows ?s2)" by simp
  then have "tree_items (snd (filter_rows (?s2\<lparr>search_var := [CHR 0xA0, CHR 0x20, CHR 0x09]\<rparr>))) =
     [(''1'', [''1'', ''Trojan'', ''C'', ''x86'', ''Win'', ''A'']),
      (''2'', [''2'', ''Worm'', ''Python'', ''x64'', ''Linux'', ''B''])]"
    unfolding mr by (simp add: example_rows_def eval_simps)
  with h2 t narrowed show ?thesis by simp
qed

text \<open>
  C7. \<^verbatim>\<open>_refresh_tree\<close> is idempotent: for every list of rows and every state, rendering
  the rows a second time gives the result and the state of the first rendering, so the
  table, the status line and the button are the same. When the rendering completes, the
  table holds the items of the rows, the status line their number, and the button is
  disabled.
\<close>

theorem refresh_tree_idempotent:
  "refresh_tree rows (snd (refresh_tree rows s)) = refresh_tree rows s \<and>
   (fst (refresh_tree rows s) = None \<longrightarrow>
      tree_items (snd (refresh_tree rows s)) = map tree_item rows \<and>
      status_var (snd (refresh_tree rows s)) = ''Loaded '' @ str_nat (length rows) @ '' entries'' \<and>
      details_button (snd (refresh_tree rows s)) = DISABLED)"
  using refresh_tree_ok[OF refresh_tree_None, of rows s s]
  by (auto simp: refresh_tree_idem)

theorem refresh_tree_idempotent_witness:
  "fst (refresh_tree example_rows (build_layout\<lparr>details_button := NORMAL\<rparr>)) = None \<and>
   refresh_tree example_rows (snd (refresh_tree example_rows (build_layout\<lparr>details_button := NORMAL\<rparr>))) =
     refresh_tree example_rows (build_layout\<lparr>details_button := NORMAL\<rparr>) \<and>
   status_var (snd (refresh_tree example_rows (build_layout\<lparr>details_button := NORMAL\<rparr>))) = ''Loaded 2 entries'' \<and>
   details_button (snd (refresh_tree example_rows (build_layout\<lparr>details_button := NORMAL\<rparr>))) = DISABLED"
proof -
  have h: "fst (refresh_tree example_rows (build_layout\<lparr>details_button := NORMAL\<rparr>)) = None"
    by (simp add: refresh_tree_ok[OF example_rows_renderable])
  have l: "length example_rows = 2" by (simp add: example_rows_def)
  have z: "str_nat 2 = ''2''" by (simp add: str_nat.simps digit_char_def)
  show ?thesis
    using h refresh_tree_idempotent[of example_rows "build_layout\<lparr>details_button := NORMAL\<rparr>"]
    by (simp add: l z)
qed

text \<open>
  C8. In every state of a running window the details button is enabled exactly when the
  selection is not empty. A selection event with a row selected enables it, one with no
  row selected disables it, and every rendering after a key release, whatever the text of
  the entry, disables it and empties the selection.
\<close>

theorem details_button_follows_selection:
  assumes "reachable db s"
  shows "(details_button s = NORMAL \<longleftrightarrow> tree_selection s \<noteq> []) \<and>
         (tree_selection (handle db (TreeviewSelect sel) s) \<noteq> [] \<longrightarrow>
            details_button (handle db (TreeviewSelect sel) s) = NORMAL) \<and>
         (tree_selection (handle db (TreeviewSelect sel) s) = [] \<longrightarrow>
            details_button (handle db (TreeviewSelect sel) s) = DISABLED) \<and>
         details_button (handle db KeyRelease s) = DISABLED \<and>
         tree_selection (handle db KeyRelease s) = [] \<and>
         details_button (handle db KeyRelease (handle db (EditText T) s)) = DISABLED \<and>
         tree_selection (handle db KeyRelease (handle db (EditText T) s)) = []"
proof -
  have r: "renderable (malware_rows s)"
    using reachable_invariant[OF assms] by simp
  then have r': "renderable (malware_rows (s\<lparr>search_var := T\<rparr>))" by simp
  show ?thesis
    using reachable_invariant[OF assms]
    by (simp add: on_select_def filter_rows_ok[OF r] filter_rows_ok[OF r'])
qed

theorem details_button_follows_selection_witness:
  "reachable example_db
     (handle example_db (TreeviewSelect [''2'']) (snd (load_data example_db build_layout))) \<and>
   tree_selection
     (handle example_db (TreeviewSelect [''2'']) (snd (load_data example_db build_layout))) = [''2''] \<and>
   details_button
     (handle example_db (TreeviewSelect [''2'']) (snd (load_data example_db build_layout))) = NORMAL \<and>
   tree_selection
     (handle example_db (TreeviewSelect [''9''])
       (handle example_db (TreeviewSelect [''2'']) (snd (load_data example_db build_layout)))) = [] \<and>
   details_button
     (handle example_db (TreeviewSelect [''9''])
       (handle example_db (TreeviewSelect [''2'']) (snd (load_data example_db build_layout)))) = DISABLED \<and>
   details_button
     (handle example_db KeyRelease (handle example_db (EditText ''x'')
       (handle example_db (TreeviewSelect [''2'']) (snd (load_data example_db build_layout))))) = DISABLED"
proof -
  let ?s0 = "snd (load_data example_db build_layout)"
  let ?s1 = "handle example_db (TreeviewSelect [''2'']) ?s0"
  have h: "reachable example_db ?s1"
    by (rule reachable_step[OF reachable_init[OF example_init]])
  have items: "map fst (tree_items ?s0) = [''1'', ''2'']" by (simp add: example_items)
  have sel: "tree_selection ?s1 = [''2'']" by (simp add: on_select_def items)
  have items1: "map fst (tree_items ?s1) = [''1'', ''2'']"
    by (simp add: on_select_def example_items)
  have sel9: "tree_selection (handle example_db (TreeviewSelect [''9'']) ?s1) = []"
    by (simp add: on_select_def items items1)
  show ?thesis
    using h sel sel9
      details_button_follows_selection[OF h, of "[''2'']" "''x''"]
      details_button_follows_selection[OF h, of "[''9'']" "''x''"]
    by simp
qed

text \<open>
  C9. After rows are rendered and some are selected, \<^verbatim>\<open>_show_selected_details\<close> makes
  one call of \<^verbatim>\<open>get_mal_info\<close>, with the id of the first selected row in display order,
  whatever else is selected: the item id of a row with integer id \<open>n\<close> is the decimal
  form of \<open>n\<close>, and reading it back as an integer gives \<open>n\<close>.
\<close>

theorem show_details_queries_first_selected:
  assumes "fst (refresh_tree rows s) = None" and "i < length rows" and "rows ! i = PInt n # cells"
    and "fst (tree_items (snd (refresh_tree rows s)) ! i) \<in> set sel"
    and "\<forall>j<i. fst (tree_items (snd (refresh_tree rows s)) ! j) \<notin> set sel"
  shows "py_int (fst (tree_items (snd (refresh_tree rows s)) ! i)) = Some n \<and>
         db_calls (handle db ShowDetails (handle db (TreeviewSelect sel) (snd (refresh_tree rows s)))) =
           db_calls s @ [GetMalInfo n]"
proof -
  let ?s1 = "snd (refresh_tree rows s)"
  have items: "tree_items ?s1 = map tree_item rows"
    by (simp add: refresh_tree_ok[OF refresh_tree_None[OF assms(1)]])
  have ids: "map fst (tree_items ?s1) = map row_id rows"
    by (simp add: items tree_item_def comp_def)
  have nth: "fst (tree_items ?s1 ! j) = row_id (rows ! j)" if "j < length rows" for j
    using that by (simp add: items tree_item_def)
  have id: "row_id (rows ! i) = str_int n" using assms(3) by (simp add: row_id_def)
  have 1: "py_int (fst (tree_items ?s1 ! i)) = Some n"
    using assms(2) by (simp add: nth id py_int_str_int)
  have a: "row_id (rows ! i) \<in> set sel" using assms(2,4) by (simp add: nth)
  have b: "\<forall>j<i. row_id (rows ! j) \<notin> set sel" using assms(2,5) by (simp add: nth)
  have "\<exists>ys. filter (\<lambda>x. x \<in> set sel) (map row_id rows) = map row_id rows ! i # ys"
    using assms(2) a b by (intro filter_first) auto
  then obtain ys where "filter (\<lambda>x. x \<in> set sel) (map row_id rows) = str_int n # ys"
    using assms(2) id by auto
  then have sel: "tree_selection (handle db (TreeviewSelect sel) ?s1) = str_int n # ys"
    by (simp add: on_select_def ids)
  have "db_calls (handle db (TreeviewSelect sel) ?s1) = db_calls s"
    by (simp add: on_select_def refresh_tree_keeps)
  with show_details_db_calls[OF sel py_int_str_int, of db] 1 show ?thesis by simp
qed

theorem show_details_queries_first_selected_witness:
  "fst (refresh_tree example_rows build_layout) = None \<and> 1 < length example_rows \<and>
   example_rows ! 1 = PInt 2 # [PStr ''Worm'', PStr ''Python'', PStr ''x64'', PStr ''Linux'', PStr ''B''] \<and>
   fst (tree_items (snd (refresh_tree example_rows build_layout)) ! 1) \<in> set [''7'', ''2'', ''1''] \<and>
   db_calls (handle example_db ShowDetails
      (handle example_db (TreeviewSelect [''7'', ''2'', ''1''])
        (snd (refresh_tree example_rows build_layout)))) = [GetMalInfo 1]"
proof -
  have h: "fst (refresh_tree example_rows build_layout) = None"
    by (simp add: refresh_tree_ok[OF example_rows_renderable])
  have items: "tree_items (snd (refresh_tree example_rows build_layout)) =
      [(''1'', [''1'', ''Trojan'', ''C'', ''x86'', ''Win'', ''A'']),
       (''2'', [''2'', ''Worm'', ''Python'', ''x64'', ''Linux'', ''B''])]"
    by (simp add: refresh_tree_ok[OF example_rows_renderable])
       (simp add: example_rows_def tree_item_def row_id_def str_int_def str_nat.simps
        digit_char_def)
  have a0: "(0::nat) < length example_rows" by (simp add: example_rows_def)
  have a: "(1::nat) < length example_rows" by (simp add: example_rows_def)
  have b0: "example_rows ! 0 =
      PInt 1 # [PStr ''Trojan'', PStr ''C'', PStr ''x86'', PStr ''Win'', PStr ''A'']"
    by (simp add: example_rows_def)
  have b: "example_rows ! 1 =
      PInt 2 # [PStr ''Worm'', PStr ''Python'', PStr ''x64'', PStr ''Linux'', PStr ''B'']"
    by (simp add: example_rows_def)
  have c0: "fst (tree_items (snd (refresh_tree example_rows build_layout)) ! 0)
      \<in> set [''7'', ''2'', ''1'']"
    by (simp add: items)
  have c: "fst (tree_items (snd (refresh_tree example_rows build_layout)) ! 1)
      \<in> set [''7'', ''2'', ''1'']"
    by (simp add: items)
  have d0: "\<forall>j<0. fst (tree_items (snd (refresh_tree example_rows build_layout)) ! j)
      \<notin> set [''7'', ''2'', ''1'']"
    by simp
  have n: "db_calls build_layout = []" by (simp add: build_layout_def)
  show ?thesis
    using h a b c
      show_details_queries_first_selected[OF h a0 b0 c0 d0, of example_db]
    by (simp add: n)
qed

text \<open>
  C10. \<^verbatim>\<open>_show_selected_details\<close> changes neither the cache, nor the table and its
  selection, nor the status line, the filter text or the button, whatever its outcome:
  no selection, an id that is no integer, a database error, an empty result, a tuple of
  the wrong length, or the detail dialog.
\<close>

theorem show_details_leaves_view:
  "malware_rows (snd (show_selected_details db s)) = malware_rows s \<and>
   tree_items (snd (show_selected_details db s)) = tree_items s \<and>
   tree_selection (snd (show_selected_details db s)) = tree_selection s \<and>
   status_var (snd (show_selected_details db s)) = status_var s \<and>
   search_var (snd (show_selected_details db s)) = search_var s \<and>
   details_button (snd (show_selected_details db s)) = details_button s"
  by (simp add: show_selected_details_frame)

end
